theory Spec2Isabelle
  imports Main "HOL-Library.AList"
begin

section \<open>Python values used by moto/servicecatalog/models.py\<close>

text \<open>
  A Python \<^verbatim>\<open>dict\<close> keeps its keys in insertion order, and \<^verbatim>\<open>list_portfolios\<close>
  observes that order, so a dict is an association list: \<^verbatim>\<open>d[k] = v\<close> is
  \<open>AList.update\<close> (an existing key keeps its place, a new key goes to the end),
  \<^verbatim>\<open>del d[k]\<close> is \<open>AList.delete\<close>, \<^verbatim>\<open>k in d\<close> is \<open>map_of d k \<noteq> None\<close>.
\<close>

type_synonym ('k, 'v) dict = "('k \<times> 'v) list"

datatype py_error = KeyError

text \<open>
  Truthiness of an \<^verbatim>\<open>Optional[str]\<close> or \<^verbatim>\<open>Optional[Dict]\<close> argument, as tested by
  \<^verbatim>\<open>if account_id:\<close>, \<^verbatim>\<open>if organization_node:\<close> and \<^verbatim>\<open>if idempotency_token\<close>:
  \<^verbatim>\<open>None\<close>, the empty string and the empty dict are all false.
\<close>

definition truthy :: "'a list option \<Rightarrow> bool" where
  "truthy x = (case x of None \<Rightarrow> False | Some v \<Rightarrow> v \<noteq> [])"

text \<open>\<^verbatim>\<open>x or default\<close> for an optional string or list.\<close>

definition or_default :: "'a list option \<Rightarrow> 'a list \<Rightarrow> 'a list" where
  "or_default x d = (case x of None \<Rightarrow> d | Some v \<Rightarrow> if v \<noteq> [] then v else d)"

text \<open>\<^verbatim>\<open>d.get(k, default)\<close>.\<close>

definition dict_get :: "('k, 'v) dict \<Rightarrow> 'k \<Rightarrow> 'v \<Rightarrow> 'v" where
  "dict_get d k dflt = (case map_of d k of None \<Rightarrow> dflt | Some v \<Rightarrow> v)"

section \<open>Values supplied from outside the module\<close>

text \<open>
  \<^verbatim>\<open>datetime.now()\<close> and \<^verbatim>\<open>uuid.uuid4()\<close> read the environment: each call of
  \<^verbatim>\<open>create_portfolio\<close> takes the two readings as arguments. A clock reading is only
  ever rendered by \<^verbatim>\<open>isoformat()\<close>. \<^verbatim>\<open>get_partition\<close> (moto.utilities.utils) and
  \<^verbatim>\<open>isoformat\<close> are not part of this module and are parameters, collected in \<open>env\<close>.
\<close>

type_synonym datetime = nat

record env =
  get_partition :: "string \<Rightarrow> string"
  isoformat :: "datetime \<Rightarrow> string"

section \<open>class Portfolio\<close>

type_synonym tag = "(string, string) dict"

record Portfolio =
  portfolio_id :: string
  display_name :: string
  description :: string
  provider_name :: string
  created_time :: datetime
  tags :: "tag list"
  region_name :: string
  account_id :: string

definition arn :: "env \<Rightarrow> Portfolio \<Rightarrow> string" where
  "arn e p = ''arn:'' @ get_partition e (region_name p) @ '':catalog:'' @ region_name p
             @ '':'' @ account_id p @ '':portfolio/'' @ portfolio_id p"

definition to_dict :: "env \<Rightarrow> Portfolio \<Rightarrow> (string, string) dict" where
  "to_dict e p =
     [(''Id'', portfolio_id p),
      (''ARN'', arn e p),
      (''DisplayName'', display_name p),
      (''Description'', description p),
      (''CreatedTime'', isoformat e (created_time p)),
      (''ProviderName'', provider_name p)]"

section \<open>class ServiceCatalogBackend\<close>

record Backend =
  backend_region_name :: string
  backend_account_id :: string
  portfolio_access :: "(string, string list) dict"
  portfolios :: "(string, Portfolio) dict"
  idempotency_tokens :: "(string, string) dict"

text \<open>\<^verbatim>\<open>__init__\<close>: three empty dicts in the scope of one region and account.\<close>

definition init :: "string \<Rightarrow> string \<Rightarrow> Backend" where
  "init region account =
     \<lparr>backend_region_name = region, backend_account_id = account,
      portfolio_access = [], portfolios = [], idempotency_tokens = []\<rparr>"

subsection \<open>delete_portfolio\<close>

text \<open>The method returns \<^verbatim>\<open>None\<close>; the model returns the state it leaves.\<close>

definition delete_portfolio :: "Backend \<Rightarrow> string option \<Rightarrow> string \<Rightarrow> Backend" where
  "delete_portfolio b accept_language i =
     (let b1 = (if map_of (portfolio_access b) i \<noteq> None
                then b\<lparr>portfolio_access := AList.delete i (portfolio_access b)\<rparr> else b);
          b2 = (if map_of (portfolios b1) i \<noteq> None
                then b1\<lparr>portfolios := AList.delete i (portfolios b1)\<rparr> else b1)
      in b2)"

subsection \<open>delete_portfolio_share\<close>

text \<open>
  \<^verbatim>\<open>xs.remove(a)\<close> deletes the first occurrence of \<open>a\<close>: \<open>remove1\<close>. The list inside
  the dict is changed in place, so its key keeps its position.
\<close>

definition delete_portfolio_share ::
  "Backend \<Rightarrow> string option \<Rightarrow> string \<Rightarrow> string option \<Rightarrow> (string, string) dict option
     \<Rightarrow> string option \<times> Backend" where
  "delete_portfolio_share b accept_language pid aid node =
     (let b1 = (case aid of
                  None \<Rightarrow> b
                | Some a \<Rightarrow>
                    (if a \<noteq> [] then
                       (case map_of (portfolio_access b) pid of
                          None \<Rightarrow> b
                        | Some xs \<Rightarrow>
                            if a \<in> set xs
                            then b\<lparr>portfolio_access :=
                                     AList.update pid (remove1 a xs) (portfolio_access b)\<rparr>
                            else b)
                     else b));
          portfolio_share_token =
            (case node of
               None \<Rightarrow> None
             | Some n \<Rightarrow>
                 if n \<noteq> [] then
                   Some (''share-'' @ pid @ ''-'' @ dict_get n ''Type'' ''''
                         @ ''-'' @ dict_get n ''Value'' '''')
                 else None)
      in (portfolio_share_token, b1))"

subsection \<open>create_portfolio\<close>

text \<open>
  \<^verbatim>\<open>self.portfolios[portfolio_id]\<close> raises \<^verbatim>\<open>KeyError\<close> for a missing key; nothing has
  been written by then, so the error leaves the state as it was.
\<close>

definition create_portfolio ::
  "env \<Rightarrow> string \<Rightarrow> datetime \<Rightarrow> Backend \<Rightarrow> string option \<Rightarrow> string \<Rightarrow> string option
     \<Rightarrow> string \<Rightarrow> tag list option \<Rightarrow> string option
     \<Rightarrow> py_error + (((string, string) dict \<times> tag list) \<times> Backend)" where
  "create_portfolio e uuid4 now b accept_language dname descr pname tgs tok =
     (let fresh =
        (let p = \<lparr>portfolio_id = uuid4, display_name = dname,
                   description = or_default descr '''', provider_name = pname,
                   created_time = now, tags = or_default tgs [],
                   region_name = backend_region_name b,
                   account_id = backend_account_id b\<rparr>;
             b1 = b\<lparr>portfolios := AList.update uuid4 p (portfolios b)\<rparr>;
             b2 = (case tok of
                     None \<Rightarrow> b1
                   | Some t \<Rightarrow>
                       if t \<noteq> []
                       then b1\<lparr>idempotency_tokens :=
                                 AList.update t uuid4 (idempotency_tokens b1)\<rparr>
                       else b1);
             b3 = b2\<lparr>portfolio_access := AList.update uuid4 [] (portfolio_access b2)\<rparr>
         in Inr ((to_dict e p, tags p), b3))
      in case tok of
           None \<Rightarrow> fresh
         | Some t \<Rightarrow>
             if t \<noteq> [] then
               (case map_of (idempotency_tokens b) t of
                  None \<Rightarrow> fresh
                | Some pid \<Rightarrow>
                    (case map_of (portfolios b) pid of
                       None \<Rightarrow> Inl KeyError
                     | Some p \<Rightarrow> Inr ((to_dict e p, tags p), b)))
             else fresh)"

subsection \<open>create_portfolio_share\<close>

definition create_portfolio_share ::
  "Backend \<Rightarrow> string option \<Rightarrow> string \<Rightarrow> string option \<Rightarrow> (string, string) dict option
     \<Rightarrow> bool \<Rightarrow> bool \<Rightarrow> string option \<times> Backend" where
  "create_portfolio_share b accept_language pid aid node share_tag_options share_principals =
     (case map_of (portfolios b) pid of
        None \<Rightarrow> (None, b)
      | Some _ \<Rightarrow>
          (let with_organization_node =
             (case node of
                None \<Rightarrow> (None, b)
              | Some n \<Rightarrow>
                  if n \<noteq> [] then
                    (let org_type = dict_get n ''Type'' '''';
                         org_value = dict_get n ''Value'' '''';
                         t0 = ''share-'' @ pid @ ''-'' @ org_type @ ''-'' @ org_value;
                         t1 = (if share_tag_options then t0 @ ''-tags'' else t0);
                         t2 = (if share_principals then t1 @ ''-principals'' else t1)
                     in (Some t2, b))
                  else (None, b))
           in case aid of
                None \<Rightarrow> with_organization_node
              | Some a \<Rightarrow>
                  if a \<noteq> [] then
                    (let acc1 = (if map_of (portfolio_access b) pid = None
                                 then AList.update pid [] (portfolio_access b)
                                 else portfolio_access b);
                         xs = dict_get acc1 pid [];
                         acc2 = (if a \<notin> set xs
                                 then AList.update pid (xs @ [a]) acc1 else acc1)
                     in (None, b\<lparr>portfolio_access := acc2\<rparr>))
                  else with_organization_node))"

subsection \<open>list_portfolios\<close>

text \<open>
  No pagination (the source marks it as still to do): every summary in the order of the
  dict, and no next token. A page token is modelled as a position, see \<open>paginate\<close>.
\<close>

definition list_portfolios ::
  "env \<Rightarrow> Backend \<Rightarrow> string option \<Rightarrow> nat option \<Rightarrow> int option
     \<Rightarrow> (string, string) dict list \<times> nat option" where
  "list_portfolios e b accept_language page_token page_size =
     (map (\<lambda>kv. to_dict e (snd kv)) (portfolios b), None)"

subsection \<open>list_portfolio_access\<close>

record pagination_config =
  input_token :: string
  limit_key :: string
  limit_default :: int
  unique_attribute :: string

text \<open>The entry of \<^verbatim>\<open>PAGINATION_MODEL\<close> for \<^verbatim>\<open>list_portfolio_access\<close>.\<close>

definition PAGINATION_MODEL_list_portfolio_access :: pagination_config where
  "PAGINATION_MODEL_list_portfolio_access =
     \<lparr>input_token = ''page_token'', limit_key = ''page_size'',
      limit_default = 20, unique_attribute = ''account_id''\<rparr>"

text \<open>
  Modelled from the spec: the decorator \<^verbatim>\<open>paginate\<close> (moto.utilities.paginator) is
  missing from the sources. The spec gives it a page token (an opaque cursor) and a page
  size with a default, and has it return a page plus a next token when more results
  remain. The cursor is modelled as the position at which the page starts; without a
  token the page starts at the first record, without a page size the configured default
  applies.
\<close>

definition paginate ::
  "pagination_config \<Rightarrow> nat option \<Rightarrow> int option \<Rightarrow> 'a list \<Rightarrow> 'a list \<times> nat option" where
  "paginate cfg page_token page_size results =
     (let start = (case page_token of None \<Rightarrow> 0 | Some n \<Rightarrow> n);
          limit = nat (case page_size of None \<Rightarrow> limit_default cfg | Some k \<Rightarrow> k);
          page = take limit (drop start results);
          next_token = (if start + limit < length results then Some (start + limit) else None)
      in (page, next_token))"

text \<open>The body of the method, before the decorator cuts it into pages.\<close>

definition list_portfolio_access_body ::
  "Backend \<Rightarrow> string option \<Rightarrow> string \<Rightarrow> string option \<Rightarrow> (string, string) dict list" where
  "list_portfolio_access_body b accept_language pid organization_parent_id =
     (let account_ids = dict_get (portfolio_access b) pid []
      in map (\<lambda>a. [(''account_id'', a)]) account_ids)"

definition list_portfolio_access ::
  "Backend \<Rightarrow> string option \<Rightarrow> string \<Rightarrow> string option \<Rightarrow> nat option \<Rightarrow> int option
     \<Rightarrow> (string, string) dict list \<times> nat option" where
  "list_portfolio_access b accept_language pid organization_parent_id page_token page_size =
     paginate PAGINATION_MODEL_list_portfolio_access page_token page_size
       (list_portfolio_access_body b accept_language pid organization_parent_id)"

section \<open>Sequences of calls\<close>

text \<open>
  One constructor for each method of the backend, with the arguments of the call (for
  \<^verbatim>\<open>create_portfolio\<close> also the uuid and the clock reading it draws).
\<close>

datatype call =
    CreatePortfolio string datetime "string option" string "string option" string
      "tag list option" "string option"
  | DeletePortfolio "string option" string
  | CreatePortfolioShare "string option" string "string option"
      "(string, string) dict option" bool bool
  | DeletePortfolioShare "string option" string "string option"
      "(string, string) dict option"
  | ListPortfolioAccess "string option" string "string option" "nat option" "int option"
  | ListPortfolios "string option" "nat option" "int option"

text \<open>
  The state a call leaves. A call of \<^verbatim>\<open>create_portfolio\<close> that raises has written
  nothing; the two listing methods only read.
\<close>

fun run :: "env \<Rightarrow> Backend \<Rightarrow> call \<Rightarrow> Backend" where
  "run e b (CreatePortfolio uuid4 now al dname descr pname tgs tok) =
     (case create_portfolio e uuid4 now b al dname descr pname tgs tok of
        Inl err \<Rightarrow> b
      | Inr r \<Rightarrow> snd r)"
| "run e b (DeletePortfolio al i) = delete_portfolio b al i"
| "run e b (CreatePortfolioShare al pid aid node sto sp) =
     snd (create_portfolio_share b al pid aid node sto sp)"
| "run e b (DeletePortfolioShare al pid aid node) =
     snd (delete_portfolio_share b al pid aid node)"
| "run e b (ListPortfolioAccess al pid org tok sz) = b"
| "run e b (ListPortfolios al tok sz) = b"

text \<open>The states reachable from the empty registry are \<open>run_calls e (init r a) cs\<close>.\<close>

definition run_calls :: "env \<Rightarrow> Backend \<Rightarrow> call list \<Rightarrow> Backend" where
  "run_calls e b cs = foldl (run e) b cs"

section \<open>Invariants of the registry\<close>

text \<open>
  \<open>access_covers\<close>: every key of the portfolios dict is a key of the access dict.
  \<open>access_ok\<close>: no access list names an account twice, and none holds the empty
  string.
\<close>

definition access_covers :: "Backend \<Rightarrow> bool" where
  "access_covers b =
     (\<forall>k. map_of (portfolios b) k \<noteq> None \<longrightarrow> map_of (portfolio_access b) k \<noteq> None)"

definition grants_ok :: "string list \<Rightarrow> bool" where
  "grants_ok xs = (distinct xs \<and> [] \<notin> set xs)"

definition access_ok :: "Backend \<Rightarrow> bool" where
  "access_ok b = (\<forall>k xs. map_of (portfolio_access b) k = Some xs \<longrightarrow> grants_ok xs)"

section \<open>Example data\<close>

definition ex_env :: env where
  "ex_env = \<lparr>get_partition = (\<lambda>region. ''aws''),
             isoformat = (\<lambda>t. ''2024-01-01T00:00:00'')\<rparr>"

text \<open>The empty registry of account 123456789012 in us-east-1.\<close>

definition ex_empty :: Backend where
  "ex_empty = init ''us-east-1'' ''123456789012''"

text \<open>
  The registry after one \<^verbatim>\<open>create_portfolio\<close> with the idempotency token \<open>tok\<close> that
  drew the uuid \<open>id-1\<close>.
\<close>

definition ex_one :: Backend where
  "ex_one =
     \<lparr>backend_region_name = ''us-east-1'', backend_account_id = ''123456789012'',
      portfolio_access = [(''id-1'', [])],
      portfolios =
        [(''id-1'',
          \<lparr>portfolio_id = ''id-1'', display_name = ''A'', description = '''',
           provider_name = ''P'', created_time = 0, tags = [],
           region_name = ''us-east-1'', account_id = ''123456789012''\<rparr>)],
      idempotency_tokens = [(''tok'', ''id-1'')]\<rparr>"

text \<open>The call that leads from \<open>ex_empty\<close> to \<open>ex_one\<close>.\<close>

definition ex_create :: call where
  "ex_create = CreatePortfolio ''id-1'' 0 None ''A'' None ''P'' None (Some ''tok'')"

text \<open>The summary of that portfolio, as \<^verbatim>\<open>to_dict\<close> renders it under \<open>ex_env\<close>.\<close>

definition ex_summary :: "(string, string) dict" where
  "ex_summary =
     [(''Id'', ''id-1''),
      (''ARN'', ''arn:aws:catalog:us-east-1:123456789012:portfolio/id-1''),
      (''DisplayName'', ''A''),
      (''Description'', ''''),
      (''CreatedTime'', ''2024-01-01T00:00:00''),
      (''ProviderName'', ''P'')]"

text \<open>\<open>ex_one\<close> after \<^verbatim>\<open>delete_portfolio\<close> of \<open>id-1\<close>: the token \<open>tok\<close> is still recorded.\<close>

definition ex_dangling :: Backend where
  "ex_dangling =
     \<lparr>backend_region_name = ''us-east-1'', backend_account_id = ''123456789012'',
      portfolio_access = [], portfolios = [],
      idempotency_tokens = [(''tok'', ''id-1'')]\<rparr>"

text \<open>\<open>ex_one\<close> after access was granted to two accounts, in this order.\<close>

definition ex_shared :: Backend where
  "ex_shared = ex_one\<lparr>portfolio_access := [(''id-1'', [''111111111111'', ''222222222222''])]\<rparr>"

definition ex_node :: "(string, string) dict" where
  "ex_node = [(''Type'', ''ORGANIZATION''), (''Value'', ''o-1'')]"

text \<open>The same call with the empty string as its idempotency token, drawing the uuid \<open>u\<close>.\<close>

definition ex_create_untokened :: "string \<Rightarrow> call" where
  "ex_create_untokened u = CreatePortfolio u 0 None ''A'' None ''P'' None (Some '''')"

text \<open>The Id field of the summary a call of \<^verbatim>\<open>create_portfolio\<close> returned, if it returned.\<close>

definition returned_id ::
  "py_error + (((string, string) dict \<times> tag list) \<times> Backend) \<Rightarrow> string option" where
  "returned_id r = (case r of Inl err \<Rightarrow> None | Inr x \<Rightarrow> map_of (fst (fst x)) ''Id'')"

text \<open>The calls that lead from the empty registry to \<open>ex_shared\<close>.\<close>

definition ex_grants :: "call list" where
  "ex_grants =
     [ex_create,
      CreatePortfolioShare None ''id-1'' (Some ''111111111111'') None False False,
      CreatePortfolioShare None ''id-1'' (Some ''222222222222'') None False False]"

section \<open>How the methods change the dicts\<close>

lemma create_portfolio_maps:
  assumes "create_portfolio e u n b al dn ds pn tgs tok = Inr r"
  shows "(portfolios (snd r) = portfolios b \<and> portfolio_access (snd r) = portfolio_access b)
       \<or> (\<exists>p. map_of (portfolios (snd r)) = (map_of (portfolios b))(u \<mapsto> p) \<and>
               map_of (portfolio_access (snd r)) = (map_of (portfolio_access b))(u \<mapsto> []))"
proof (cases tok)
  case None
  with assms show ?thesis
    by (auto simp: create_portfolio_def Let_def AList.update_conv')
next
  case (Some t)
  show ?thesis
  proof (cases "t \<noteq> [] \<and> map_of (idempotency_tokens b) t \<noteq> None")
    case True
    then obtain i where i: "map_of (idempotency_tokens b) t = Some i" by auto
    with assms Some True show ?thesis
      by (cases "map_of (portfolios b) i") (auto simp: create_portfolio_def Let_def)
  next
    case False
    with assms Some show ?thesis
      by (cases "t = []") (auto simp: create_portfolio_def Let_def AList.update_conv')
  qed
qed

lemma delete_portfolio_maps:
  "map_of (portfolios (delete_portfolio b al i)) = (map_of (portfolios b))(i := None) \<and>
   map_of (portfolio_access (delete_portfolio b al i)) = (map_of (portfolio_access b))(i := None) \<and>
   idempotency_tokens (delete_portfolio b al i) = idempotency_tokens b"
  by (auto simp: delete_portfolio_def Let_def AList.delete_conv')

lemma create_portfolio_share_maps:
  "portfolios (snd (create_portfolio_share b al pid aid node sto sp)) = portfolios b \<and>
   idempotency_tokens (snd (create_portfolio_share b al pid aid node sto sp)) = idempotency_tokens b \<and>
   (portfolio_access (snd (create_portfolio_share b al pid aid node sto sp)) = portfolio_access b
    \<or> (\<exists>a. aid = Some a \<and> a \<noteq> [] \<and> map_of (portfolios b) pid \<noteq> None \<and>
         map_of (portfolio_access (snd (create_portfolio_share b al pid aid node sto sp))) =
           (map_of (portfolio_access b))
             (pid \<mapsto> (if a \<in> set (dict_get (portfolio_access b) pid [])
                       then dict_get (portfolio_access b) pid []
                       else dict_get (portfolio_access b) pid [] @ [a]))))"
proof (cases "map_of (portfolios b) pid")
  case None
  then show ?thesis by (simp add: create_portfolio_share_def)
next
  case (Some p)
  show ?thesis
  proof (cases "truthy aid")
    case False
    then have "aid = None \<or> aid = Some []" by (cases aid) (simp_all add: truthy_def)
    with Some show ?thesis
      by (cases node) (auto simp: create_portfolio_share_def Let_def)
  next
    case True
    then obtain a where a: "aid = Some a" "a \<noteq> []" by (cases aid) (simp_all add: truthy_def)
    show ?thesis
    proof (cases "map_of (portfolio_access b) pid")
      case None
      with Some a show ?thesis
        by (simp add: create_portfolio_share_def Let_def dict_get_def AList.update_conv')
    next
      case (Some xs)
      with \<open>map_of (portfolios b) pid = Some p\<close> a show ?thesis
        by (cases "a \<in> set xs")
           (simp_all add: create_portfolio_share_def Let_def dict_get_def AList.update_conv'
                          map_upd_triv)
    qed
  qed
qed

lemma delete_portfolio_share_maps:
  "portfolios (snd (delete_portfolio_share b al pid aid node)) = portfolios b \<and>
   idempotency_tokens (snd (delete_portfolio_share b al pid aid node)) = idempotency_tokens b \<and>
   (portfolio_access (snd (delete_portfolio_share b al pid aid node)) = portfolio_access b
    \<or> (\<exists>a xs. aid = Some a \<and> a \<noteq> [] \<and> map_of (portfolio_access b) pid = Some xs \<and> a \<in> set xs \<and>
         map_of (portfolio_access (snd (delete_portfolio_share b al pid aid node))) =
           (map_of (portfolio_access b))(pid \<mapsto> remove1 a xs)))"
proof (cases aid)
  case None
  then show ?thesis by (simp add: delete_portfolio_share_def Let_def)
next
  case (Some a)
  show ?thesis
  proof (cases "map_of (portfolio_access b) pid")
    case None
    with Some show ?thesis by (simp add: delete_portfolio_share_def Let_def)
  next
    case (Some xs)
    with \<open>aid = Some a\<close> show ?thesis
      by (cases "a = []"; cases "a \<in> set xs")
         (simp_all add: delete_portfolio_share_def Let_def AList.update_conv')
  qed
qed

subsection \<open>Every live portfolio has an access list\<close>

lemma access_coversD:
  "access_covers b \<Longrightarrow> map_of (portfolios b) k = Some p \<Longrightarrow> map_of (portfolio_access b) k \<noteq> None"
  unfolding access_covers_def by blast

lemma access_coversI:
  "(\<And>k p. map_of (portfolios b) k = Some p \<Longrightarrow> map_of (portfolio_access b) k \<noteq> None)
     \<Longrightarrow> access_covers b"
  unfolding access_covers_def by blast

lemma access_covers_init: "access_covers (init r a)"
  by (simp add: access_covers_def init_def)

lemma access_covers_create_portfolio:
  assumes "access_covers b" and "create_portfolio e u n b al dn ds pn tgs tok = Inr r"
  shows "access_covers (snd r)"
  using create_portfolio_maps [OF assms(2)]
proof
  assume "portfolios (snd r) = portfolios b \<and> portfolio_access (snd r) = portfolio_access b"
  with assms(1) show ?thesis by (simp add: access_covers_def)
next
  assume "\<exists>p. map_of (portfolios (snd r)) = (map_of (portfolios b))(u \<mapsto> p) \<and>
               map_of (portfolio_access (snd r)) = (map_of (portfolio_access b))(u \<mapsto> [])"
  with assms(1) show ?thesis by (auto simp: access_covers_def)
qed

lemma access_covers_delete_portfolio:
  "access_covers b \<Longrightarrow> access_covers (delete_portfolio b al i)"
  by (simp add: access_covers_def delete_portfolio_maps)

lemma access_covers_upd:
  assumes "access_covers b"
    and "portfolios b' = portfolios b"
    and "portfolio_access b' = portfolio_access b \<or>
         (\<exists>ys. map_of (portfolio_access b') = (map_of (portfolio_access b))(pid \<mapsto> ys))"
  shows "access_covers b'"
proof (rule access_coversI)
  fix k p
  assume "map_of (portfolios b') k = Some p"
  with assms(2) have "map_of (portfolios b) k = Some p" by simp
  with assms(1) have c: "map_of (portfolio_access b) k \<noteq> None" by (rule access_coversD)
  from assms(3) show "map_of (portfolio_access b') k \<noteq> None"
  proof
    assume "portfolio_access b' = portfolio_access b"
    with c show ?thesis by simp
  next
    assume "\<exists>ys. map_of (portfolio_access b') = (map_of (portfolio_access b))(pid \<mapsto> ys)"
    then obtain ys where "map_of (portfolio_access b') = (map_of (portfolio_access b))(pid \<mapsto> ys)"
      by blast
    with c show ?thesis by simp
  qed
qed

lemma access_covers_create_portfolio_share:
  assumes "access_covers b"
  shows "access_covers (snd (create_portfolio_share b al pid aid node sto sp))"
proof (rule access_covers_upd [OF assms, of _ pid])
  show "portfolios (snd (create_portfolio_share b al pid aid node sto sp)) = portfolios b"
    by (simp add: create_portfolio_share_maps)
  from create_portfolio_share_maps [of b al pid aid node sto sp]
  show "portfolio_access (snd (create_portfolio_share b al pid aid node sto sp)) = portfolio_access b \<or>
        (\<exists>ys. map_of (portfolio_access (snd (create_portfolio_share b al pid aid node sto sp))) =
                 (map_of (portfolio_access b))(pid \<mapsto> ys))"
    by blast
qed

lemma access_covers_delete_portfolio_share:
  assumes "access_covers b"
  shows "access_covers (snd (delete_portfolio_share b al pid aid node))"
proof (rule access_covers_upd [OF assms, of _ pid])
  show "portfolios (snd (delete_portfolio_share b al pid aid node)) = portfolios b"
    by (simp add: delete_portfolio_share_maps)
  from delete_portfolio_share_maps [of b al pid aid node]
  show "portfolio_access (snd (delete_portfolio_share b al pid aid node)) = portfolio_access b \<or>
        (\<exists>ys. map_of (portfolio_access (snd (delete_portfolio_share b al pid aid node))) =
                 (map_of (portfolio_access b))(pid \<mapsto> ys))"
    by blast
qed

lemma access_covers_run: "access_covers b \<Longrightarrow> access_covers (run e b c)"
proof (cases c)
  case (CreatePortfolio u n al dn ds pn tgs tok)
  assume "access_covers b"
  then show ?thesis
    using CreatePortfolio access_covers_create_portfolio [of b e u n al dn ds pn tgs tok]
    by (cases "create_portfolio e u n b al dn ds pn tgs tok") simp_all
qed (simp_all add: access_covers_delete_portfolio access_covers_create_portfolio_share
       access_covers_delete_portfolio_share)

lemma access_covers_run_calls: "access_covers b \<Longrightarrow> access_covers (run_calls e b cs)"
  unfolding run_calls_def
  by (induction cs arbitrary: b) (simp_all add: access_covers_run)

subsection \<open>No access list names an account twice or holds the empty string\<close>

lemma access_okD:
  "access_ok b \<Longrightarrow> map_of (portfolio_access b) k = Some xs \<Longrightarrow> grants_ok xs"
  unfolding access_ok_def by blast

lemma access_okI:
  "(\<And>k xs. map_of (portfolio_access b) k = Some xs \<Longrightarrow> grants_ok xs) \<Longrightarrow> access_ok b"
  unfolding access_ok_def by blast

lemma access_ok_cong:
  "access_ok b \<Longrightarrow> portfolio_access b' = portfolio_access b \<Longrightarrow> access_ok b'"
  unfolding access_ok_def by metis

lemma access_ok_upd:
  assumes "access_ok b"
    and "map_of (portfolio_access b') = (map_of (portfolio_access b))(k \<mapsto> ys)"
    and "grants_ok ys"
  shows "access_ok b'"
proof (rule access_okI)
  fix j xs
  assume h: "map_of (portfolio_access b') j = Some xs"
  show "grants_ok xs"
  proof (cases "j = k")
    case True
    with h assms(2) have "xs = ys" by simp
    with assms(3) show ?thesis by blast
  next
    case False
    with h assms(2) have "map_of (portfolio_access b) j = Some xs" by simp
    with assms(1) show ?thesis by (rule access_okD)
  qed
qed

lemma access_ok_init: "access_ok (init r a)"
  by (simp add: access_ok_def init_def)

lemma dict_get_grants_ok:
  assumes "access_ok b"
  shows "grants_ok (dict_get (portfolio_access b) k [])"
proof (cases "map_of (portfolio_access b) k")
  case None
  then show ?thesis by (simp add: dict_get_def grants_ok_def)
next
  case (Some xs)
  with assms have "grants_ok xs" by (rule access_okD)
  with Some show ?thesis by (simp add: dict_get_def)
qed

lemma access_ok_create_portfolio:
  assumes "access_ok b" and "create_portfolio e u n b al dn ds pn tgs tok = Inr r"
  shows "access_ok (snd r)"
  using create_portfolio_maps [OF assms(2)]
proof
  assume "portfolios (snd r) = portfolios b \<and> portfolio_access (snd r) = portfolio_access b"
  then have "portfolio_access (snd r) = portfolio_access b" by blast
  with assms(1) show ?thesis by (rule access_ok_cong)
next
  assume "\<exists>p. map_of (portfolios (snd r)) = (map_of (portfolios b))(u \<mapsto> p) \<and>
               map_of (portfolio_access (snd r)) = (map_of (portfolio_access b))(u \<mapsto> [])"
  then have m: "map_of (portfolio_access (snd r)) = (map_of (portfolio_access b))(u \<mapsto> [])"
    by blast
  show ?thesis by (rule access_ok_upd [OF assms(1) m]) (simp add: grants_ok_def)
qed

lemma access_ok_delete_portfolio:
  assumes "access_ok b"
  shows "access_ok (delete_portfolio b al i)"
proof (rule access_okI)
  fix k xs
  assume "map_of (portfolio_access (delete_portfolio b al i)) k = Some xs"
  then have "map_of (portfolio_access b) k = Some xs"
    by (simp add: delete_portfolio_maps split: if_splits)
  with assms show "grants_ok xs" by (rule access_okD)
qed

lemma access_ok_create_portfolio_share:
  assumes "access_ok b"
  shows "access_ok (snd (create_portfolio_share b al pid aid node sto sp))"
proof -
  let ?b' = "snd (create_portfolio_share b al pid aid node sto sp)"
  let ?xs = "dict_get (portfolio_access b) pid []"
  from create_portfolio_share_maps [of b al pid aid node sto sp]
  have "portfolio_access ?b' = portfolio_access b \<or>
        (\<exists>a. a \<noteq> [] \<and> map_of (portfolio_access ?b') =
           (map_of (portfolio_access b))(pid \<mapsto> (if a \<in> set ?xs then ?xs else ?xs @ [a])))"
    by blast
  then show ?thesis
  proof
    assume "portfolio_access ?b' = portfolio_access b"
    with assms show ?thesis by (rule access_ok_cong)
  next
    assume "\<exists>a. a \<noteq> [] \<and> map_of (portfolio_access ?b') =
           (map_of (portfolio_access b))(pid \<mapsto> (if a \<in> set ?xs then ?xs else ?xs @ [a]))"
    then obtain a where a: "a \<noteq> []" and m: "map_of (portfolio_access ?b') =
           (map_of (portfolio_access b))(pid \<mapsto> (if a \<in> set ?xs then ?xs else ?xs @ [a]))"
      by blast
    have "grants_ok (if a \<in> set ?xs then ?xs else ?xs @ [a])"
      using dict_get_grants_ok [OF assms, of pid] a by (simp add: grants_ok_def)
    with assms m show ?thesis by (rule access_ok_upd)
  qed
qed

lemma access_ok_delete_portfolio_share:
  assumes "access_ok b"
  shows "access_ok (snd (delete_portfolio_share b al pid aid node))"
proof -
  let ?b' = "snd (delete_portfolio_share b al pid aid node)"
  from delete_portfolio_share_maps [of b al pid aid node]
  have "portfolio_access ?b' = portfolio_access b \<or>
        (\<exists>a xs. map_of (portfolio_access b) pid = Some xs \<and>
           map_of (portfolio_access ?b') = (map_of (portfolio_access b))(pid \<mapsto> remove1 a xs))"
    by blast
  then show ?thesis
  proof
    assume "portfolio_access ?b' = portfolio_access b"
    with assms show ?thesis by (rule access_ok_cong)
  next
    assume "\<exists>a xs. map_of (portfolio_access b) pid = Some xs \<and>
           map_of (portfolio_access ?b') = (map_of (portfolio_access b))(pid \<mapsto> remove1 a xs)"
    then obtain a xs where x: "map_of (portfolio_access b) pid = Some xs"
      and m: "map_of (portfolio_access ?b') = (map_of (portfolio_access b))(pid \<mapsto> remove1 a xs)"
      by blast
    from assms x have "grants_ok xs" by (rule access_okD)
    then have "grants_ok (remove1 a xs)"
      using notin_set_remove1 [of "[]" xs a] by (simp add: grants_ok_def)
    with assms m show ?thesis by (rule access_ok_upd)
  qed
qed

lemma access_ok_run: "access_ok b \<Longrightarrow> access_ok (run e b c)"
proof (cases c)
  case (CreatePortfolio u n al dn ds pn tgs tok)
  assume "access_ok b"
  then show ?thesis
    using CreatePortfolio access_ok_create_portfolio [of b e u n al dn ds pn tgs tok]
    by (cases "create_portfolio e u n b al dn ds pn tgs tok") simp_all
qed (simp_all add: access_ok_delete_portfolio access_ok_create_portfolio_share
       access_ok_delete_portfolio_share)

lemma access_ok_run_calls: "access_ok b \<Longrightarrow> access_ok (run_calls e b cs)"
  unfolding run_calls_def
  by (induction cs arbitrary: b) (simp_all add: access_ok_run)

lemma reachable_grants_ok:
  "grants_ok (dict_get (portfolio_access (run_calls e (init r a) cs)) k [])"
  by (rule dict_get_grants_ok [OF access_ok_run_calls [OF access_ok_init]])

section \<open>create_portfolio_share on an unknown portfolio\<close>

text \<open>
  Claim C3. For every registry state and every portfolio id that is not a key of the
  portfolios map, \<^verbatim>\<open>create_portfolio_share\<close> returns \<^verbatim>\<open>None\<close> and leaves the whole
  state (portfolios, access lists, idempotency tokens) as it was, whatever the account
  id, the organization node and the two flags are.
\<close>

theorem create_portfolio_share_unknown_portfolio:
  "map_of (portfolios b) pid = None \<Longrightarrow>
   create_portfolio_share b al pid aid node sto sp = (None, b)"
  by (simp add: create_portfolio_share_def)

theorem create_portfolio_share_unknown_portfolio_witness:
  "map_of (portfolios ex_one) ''id-2'' = None \<and>
   create_portfolio_share ex_one None ''id-2'' (Some ''111111111111'')
     (Some [(''Type'', ''ORGANIZATION''), (''Value'', ''o-1'')]) True True = (None, ex_one)"
proof -
  have h: "map_of (portfolios ex_one) ''id-2'' = None"
    by (simp add: ex_one_def)
  show ?thesis
    using h create_portfolio_share_unknown_portfolio [OF h] by simp
qed

section \<open>Reachable example states\<close>

lemma ex_one_reached:
  "run_calls ex_env (init ''us-east-1'' ''123456789012'') [ex_create] = ex_one"
  by (simp add: run_calls_def ex_create_def create_portfolio_def init_def ex_one_def ex_env_def
                or_default_def Let_def)

section \<open>Every live portfolio has an access list\<close>

text \<open>
  Claim C9. In every state reachable from the empty registry by any sequence of calls of
  the six methods (\<open>run_calls e (init r a) cs\<close> for any call list \<open>cs\<close>), every
  portfolio id that is a key of the portfolios dict is a key of the portfolio_access dict.
\<close>

theorem live_portfolio_has_access_list:
  "map_of (portfolios (run_calls e (init r a) cs)) pid \<noteq> None \<Longrightarrow>
   map_of (portfolio_access (run_calls e (init r a) cs)) pid \<noteq> None"
  using access_covers_run_calls [OF access_covers_init, of e r a cs]
  unfolding access_covers_def by blast

theorem live_portfolio_has_access_list_witness:
  "map_of (portfolios (run_calls ex_env (init ''us-east-1'' ''123456789012'') [ex_create])) ''id-1''
     \<noteq> None \<and>
   map_of (portfolio_access (run_calls ex_env (init ''us-east-1'' ''123456789012'') [ex_create]))
     ''id-1'' \<noteq> None"
proof -
  have h: "map_of (portfolios (run_calls ex_env (init ''us-east-1'' ''123456789012'') [ex_create]))
             ''id-1'' \<noteq> None"
    by (simp add: ex_one_reached ex_one_def)
  show ?thesis
    using h live_portfolio_has_access_list [OF h] by simp
qed

section \<open>delete_portfolio\<close>

text \<open>
  Claim C7. For every registry state and every id, \<^verbatim>\<open>delete_portfolio\<close> (a total
  function: it never raises) leaves neither a portfolio entry nor an access-list entry
  for the id, touches no other entry and no idempotency token, changes nothing when the
  id is absent from both dicts, and run a second time with the same id leaves the state
  the first run produced.
\<close>

theorem delete_portfolio_idempotent:
  "map_of (portfolios (delete_portfolio b al i)) i = None \<and>
   map_of (portfolio_access (delete_portfolio b al i)) i = None \<and>
   (\<forall>j. j \<noteq> i \<longrightarrow>
      map_of (portfolios (delete_portfolio b al i)) j = map_of (portfolios b) j \<and>
      map_of (portfolio_access (delete_portfolio b al i)) j = map_of (portfolio_access b) j) \<and>
   idempotency_tokens (delete_portfolio b al i) = idempotency_tokens b \<and>
   (map_of (portfolios b) i = None \<and> map_of (portfolio_access b) i = None \<longrightarrow>
      delete_portfolio b al i = b) \<and>
   delete_portfolio (delete_portfolio b al i) al' i = delete_portfolio b al i"
proof -
  have twice: "delete_portfolio (delete_portfolio b al i) al' i = delete_portfolio b al i"
    by (simp add: delete_portfolio_def Let_def AList.delete_conv')
  have absent: "map_of (portfolios b) i = None \<and> map_of (portfolio_access b) i = None \<longrightarrow>
      delete_portfolio b al i = b"
    by (simp add: delete_portfolio_def Let_def)
  show ?thesis
    using twice absent by (simp add: delete_portfolio_maps)
qed

theorem delete_portfolio_idempotent_witness:
  "delete_portfolio ex_one None ''id-1'' = ex_dangling \<and>
   delete_portfolio ex_dangling None ''id-1'' = ex_dangling \<and>
   map_of (portfolios ex_dangling) ''id-1'' = None \<and>
   map_of (portfolio_access ex_dangling) ''id-1'' = None"
proof -
  have d: "delete_portfolio ex_one None ''id-1'' = ex_dangling"
    by (simp add: delete_portfolio_def ex_one_def ex_dangling_def Let_def)
  have a: "map_of (portfolios ex_dangling) ''id-1'' = None \<and>
           map_of (portfolio_access ex_dangling) ''id-1'' = None"
    by (simp add: ex_dangling_def)
  from delete_portfolio_idempotent [of ex_dangling None "''id-1''" None] a
  have "delete_portfolio ex_dangling None ''id-1'' = ex_dangling" by blast
  with d a show ?thesis by simp
qed

section \<open>The share token of create_portfolio_share\<close>

text \<open>
  Claim C5. For every live portfolio id \<open>pid\<close>, a call of \<^verbatim>\<open>create_portfolio_share\<close>
  with no account id (\<^verbatim>\<open>None\<close>, or the empty string, which the guard treats alike) and
  an organization node with Type \<open>t\<close> and Value \<open>v\<close> returns the token
  \<open>share-pid-t-v\<close>, followed by \<open>-tags\<close> exactly when \<^verbatim>\<open>share_tag_options\<close> holds and
  then by \<open>-principals\<close> exactly when \<^verbatim>\<open>share_principals\<close> holds: with both flags
  the token ends in \<open>-tags-principals\<close>, with neither it has no suffix. The state is
  left as it was.
\<close>

theorem create_portfolio_share_organization_token:
  assumes "map_of (portfolios b) pid \<noteq> None"
    and "\<not> truthy aid"
    and "map_of n ''Type'' = Some t"
    and "map_of n ''Value'' = Some v"
  shows "create_portfolio_share b al pid aid (Some n) sto sp =
           (Some (''share-'' @ pid @ ''-'' @ t @ ''-'' @ v
                  @ (if sto then ''-tags'' else '''')
                  @ (if sp then ''-principals'' else '''')), b)
         \<and> create_portfolio_share b al pid aid (Some n) True True =
           (Some (''share-'' @ pid @ ''-'' @ t @ ''-'' @ v @ ''-tags-principals''), b)
         \<and> create_portfolio_share b al pid aid (Some n) False False =
           (Some (''share-'' @ pid @ ''-'' @ t @ ''-'' @ v), b)"
proof -
  from assms(3) have n: "n \<noteq> []" by auto
  obtain p where p: "map_of (portfolios b) pid = Some p" using assms(1) by blast
  have a: "aid = None \<or> aid = Some []" using assms(2) by (cases aid) (simp_all add: truthy_def)
  have g: "\<And>x y. create_portfolio_share b al pid aid (Some n) x y =
           (Some (''share-'' @ pid @ ''-'' @ t @ ''-'' @ v
                  @ (if x then ''-tags'' else '''')
                  @ (if y then ''-principals'' else '''')), b)"
  proof -
    fix x y
    show "create_portfolio_share b al pid aid (Some n) x y =
           (Some (''share-'' @ pid @ ''-'' @ t @ ''-'' @ v
                  @ (if x then ''-tags'' else '''')
                  @ (if y then ''-principals'' else '''')), b)"
      using n p a assms(3,4)
      by (cases x; cases y) (auto simp: create_portfolio_share_def dict_get_def Let_def)
  qed
  show ?thesis
    using g [of sto sp] g [of True True] g [of False False] by simp
qed

theorem create_portfolio_share_organization_token_witness:
  "map_of (portfolios ex_one) ''id-1'' \<noteq> None \<and> \<not> truthy (None :: string option) \<and>
   map_of ex_node ''Type'' = Some ''ORGANIZATION'' \<and> map_of ex_node ''Value'' = Some ''o-1'' \<and>
   create_portfolio_share ex_one None ''id-1'' None (Some ex_node) True True =
     (Some ''share-id-1-ORGANIZATION-o-1-tags-principals'', ex_one) \<and>
   create_portfolio_share ex_one None ''id-1'' None (Some ex_node) False False =
     (Some ''share-id-1-ORGANIZATION-o-1'', ex_one) \<and>
   create_portfolio_share ex_one None ''id-1'' None (Some ex_node) True False =
     (Some ''share-id-1-ORGANIZATION-o-1-tags'', ex_one)"
proof -
  have h1: "map_of (portfolios ex_one) ''id-1'' \<noteq> None" by (simp add: ex_one_def)
  have h2: "\<not> truthy (None :: string option)" by (simp add: truthy_def)
  have h3: "map_of ex_node ''Type'' = Some ''ORGANIZATION''" by (simp add: ex_node_def)
  have h4: "map_of ex_node ''Value'' = Some ''o-1''" by (simp add: ex_node_def)
  show ?thesis
    using h1 h2 h3 h4
      create_portfolio_share_organization_token [OF h1 h2 h3 h4, of None True False]
    by simp
qed

section \<open>Defaults of create_portfolio\<close>

text \<open>
  Claim C10. When \<^verbatim>\<open>create_portfolio\<close> is called with an idempotency token that is
  absent, empty or not yet recorded, it returns normally and stores the new portfolio
  under the drawn uuid; if the description is \<^verbatim>\<open>None\<close>, the stored description and the
  Description field of the returned summary are the empty string; if the tags are
  \<^verbatim>\<open>None\<close>, the stored tags and the returned tags are the empty list.
\<close>

theorem create_portfolio_defaults:
  assumes "\<forall>t. tok = Some t \<and> t \<noteq> [] \<longrightarrow> map_of (idempotency_tokens b) t = None"
  shows "\<exists>s tg b' p.
           create_portfolio e u n b al dn ds pn tgs tok = Inr ((s, tg), b') \<and>
           map_of (portfolios b') u = Some p \<and>
           (ds = None \<longrightarrow> description p = '''' \<and> map_of s ''Description'' = Some '''') \<and>
           (tgs = None \<longrightarrow> tags p = [] \<and> tg = [])"
  using assms
  by (cases tok)
     (simp_all add: create_portfolio_def Let_def AList.update_conv' to_dict_def or_default_def)

theorem create_portfolio_defaults_witness:
  "map_of (idempotency_tokens ex_empty) ''tok'' = None \<and>
   create_portfolio ex_env ''id-1'' 0 ex_empty None ''A'' None ''P'' None (Some ''tok'') =
     Inr ((ex_summary, []), ex_one) \<and>
   map_of ex_summary ''Description'' = Some '''' \<and>
   map_of (portfolios ex_one) ''id-1'' =
     Some \<lparr>portfolio_id = ''id-1'', display_name = ''A'', description = '''',
           provider_name = ''P'', created_time = 0, tags = [],
           region_name = ''us-east-1'', account_id = ''123456789012''\<rparr>"
proof -
  have h: "\<forall>t. Some ''tok'' = Some t \<and> t \<noteq> [] \<longrightarrow> map_of (idempotency_tokens ex_empty) t = None"
    by (simp add: ex_empty_def init_def)
  have c: "create_portfolio ex_env ''id-1'' 0 ex_empty None ''A'' None ''P'' None (Some ''tok'') =
     Inr ((ex_summary, []), ex_one)"
    by (simp add: create_portfolio_def ex_empty_def init_def ex_one_def ex_env_def ex_summary_def
                  to_dict_def arn_def or_default_def Let_def)
  from create_portfolio_defaults [OF h, of ex_env "''id-1''" 0 None "''A''" None "''P''" None]
  obtain s tg b' p where
    r: "create_portfolio ex_env ''id-1'' 0 ex_empty None ''A'' None ''P'' None (Some ''tok'') =
          Inr ((s, tg), b')"
    and d: "map_of s ''Description'' = Some ''''" and t: "tg = []"
    by auto
  from r c have "s = ex_summary" by simp
  with d have "map_of ex_summary ''Description'' = Some ''''" by simp
  with c show ?thesis by (simp add: ex_one_def ex_empty_def init_def)
qed

section \<open>create_portfolio with a repeated idempotency token\<close>

lemma ex_create_evaluated:
  "create_portfolio ex_env ''id-1'' 0 ex_empty None ''A'' None ''P'' None (Some ''tok'') =
     Inr ((ex_summary, []), ex_one)"
  by (simp add: create_portfolio_def ex_empty_def init_def ex_one_def ex_env_def ex_summary_def
                to_dict_def arn_def or_default_def Let_def)

text \<open>
  Claim C1, as amended. For every registry state and every non-empty idempotency token
  \<open>t\<close> that the state either has not recorded or has recorded for a portfolio that is
  still in the portfolios dict, two calls of \<^verbatim>\<open>create_portfolio\<close> with the token \<open>t\<close>,
  whatever their other arguments, both return normally with the same summary (so the
  same Id) and the same tags, and the second call leaves the state exactly as the first
  one left it: no entry is added to the portfolios dict.
\<close>

theorem create_portfolio_same_token_twice:
  assumes "t \<noteq> []"
    and "case map_of (idempotency_tokens b) t of
           None \<Rightarrow> True | Some i \<Rightarrow> map_of (portfolios b) i \<noteq> None"
  shows "\<exists>s tg b1.
           create_portfolio e uA nA b alA dnA dsA pnA tgsA (Some t) = Inr ((s, tg), b1) \<and>
           create_portfolio e uB nB b1 alB dnB dsB pnB tgsB (Some t) = Inr ((s, tg), b1) \<and>
           map_of s ''Id'' \<noteq> None"
proof (cases "map_of (idempotency_tokens b) t")
  case None
  with assms(1) show ?thesis
    by (simp add: create_portfolio_def Let_def AList.update_conv' to_dict_def)
next
  case (Some i)
  with assms(2) obtain p where p: "map_of (portfolios b) i = Some p" by auto
  from assms(1) Some p show ?thesis
    by (simp add: create_portfolio_def Let_def to_dict_def)
qed

theorem create_portfolio_same_token_twice_witness:
  "''tok'' \<noteq> [] \<and>
   (case map_of (idempotency_tokens ex_empty) ''tok'' of
      None \<Rightarrow> True | Some i \<Rightarrow> map_of (portfolios ex_empty) i \<noteq> None) \<and>
   create_portfolio ex_env ''id-1'' 0 ex_empty None ''A'' None ''P'' None (Some ''tok'') =
     Inr ((ex_summary, []), ex_one) \<and>
   create_portfolio ex_env ''id-2'' 5 ex_one None ''B'' (Some ''other'') ''Q'' None (Some ''tok'') =
     Inr ((ex_summary, []), ex_one)"
proof -
  have h1: "''tok'' \<noteq> []" by simp
  have h2: "case map_of (idempotency_tokens ex_empty) ''tok'' of
      None \<Rightarrow> True | Some i \<Rightarrow> map_of (portfolios ex_empty) i \<noteq> None"
    by (simp add: ex_empty_def init_def)
  from create_portfolio_same_token_twice [OF h1 h2,
      where e = ex_env and uA = "''id-1''" and nA = 0 and alA = None and dnA = "''A''"
        and dsA = None and pnA = "''P''" and tgsA = None
        and uB = "''id-2''" and nB = 5 and alB = None and dnB = "''B''"
        and dsB = "Some ''other''" and pnB = "''Q''" and tgsB = None]
  obtain s tg b1 where
    first: "create_portfolio ex_env ''id-1'' 0 ex_empty None ''A'' None ''P'' None (Some ''tok'') =
              Inr ((s, tg), b1)"
    and second: "create_portfolio ex_env ''id-2'' 5 b1 None ''B'' (Some ''other'') ''Q'' None
              (Some ''tok'') = Inr ((s, tg), b1)"
    by blast
  from first ex_create_evaluated have "s = ex_summary" "tg = []" "b1 = ex_one" by simp_all
  with second h1 h2 ex_create_evaluated show ?thesis by simp
qed

text \<open>
  Claim C1 as stated fails. With the empty string as the token the guard
  \<^verbatim>\<open>if idempotency_token and ...\<close> treats the token as absent: two calls from the empty
  registry return the ids of two different portfolios, and the portfolios dict holds two
  entries. With the token \<open>tok\<close> recorded for a portfolio that has been deleted, the
  call does not return at all.
\<close>

theorem create_portfolio_same_token_twice_counterexample:
  "returned_id (create_portfolio ex_env ''id-1'' 0 ex_empty None ''A'' None ''P'' None (Some ''''))
     = Some ''id-1'' \<and>
   returned_id (create_portfolio ex_env ''id-2'' 0 (run ex_env ex_empty (ex_create_untokened ''id-1''))
                  None ''A'' None ''P'' None (Some ''''))
     = Some ''id-2'' \<and>
   map fst (portfolios (run_calls ex_env ex_empty
                          [ex_create_untokened ''id-1'', ex_create_untokened ''id-2'']))
     = [''id-1'', ''id-2''] \<and>
   create_portfolio ex_env ''id-2'' 0 ex_dangling None ''A'' None ''P'' None (Some ''tok'')
     = Inl KeyError"
  by (simp add: returned_id_def run_calls_def ex_create_untokened_def create_portfolio_def
                ex_empty_def init_def ex_env_def ex_dangling_def to_dict_def or_default_def Let_def)

section \<open>create_portfolio after delete_portfolio\<close>

text \<open>
  Claim C2 at its failing input. \<^verbatim>\<open>create_portfolio\<close> with the token \<open>tok\<close> followed by
  \<^verbatim>\<open>delete_portfolio\<close> of the portfolio it made leads from the empty registry to
  \<open>ex_dangling\<close>; there, \<^verbatim>\<open>create_portfolio\<close> with the token \<open>tok\<close> raises
  \<^verbatim>\<open>KeyError\<close>.
\<close>

theorem create_portfolio_raises_after_delete:
  "run_calls ex_env ex_empty [ex_create, DeletePortfolio None ''id-1''] = ex_dangling \<and>
   create_portfolio ex_env ''id-2'' 1 ex_dangling None ''B'' (Some ''again'') ''P'' None (Some ''tok'')
     = Inl KeyError"
  by (simp add: run_calls_def ex_create_def create_portfolio_def delete_portfolio_def
                ex_empty_def init_def ex_env_def ex_dangling_def or_default_def Let_def)

section \<open>Granting access to the same account twice\<close>

lemma count_list_distinct:
  "distinct xs \<Longrightarrow> a \<in> set xs \<Longrightarrow> count_list xs a = 1"
  by (induction xs) auto

lemma create_portfolio_share_grant:
  assumes "map_of (portfolios b) pid \<noteq> None" and "a \<noteq> []"
  shows "fst (create_portfolio_share b al pid (Some a) node sto sp) = None"
    and "portfolios (snd (create_portfolio_share b al pid (Some a) node sto sp)) = portfolios b"
    and "map_of (portfolio_access (snd (create_portfolio_share b al pid (Some a) node sto sp))) pid =
           Some (if a \<in> set (dict_get (portfolio_access b) pid [])
                 then dict_get (portfolio_access b) pid []
                 else dict_get (portfolio_access b) pid [] @ [a])"
proof -
  obtain p where p: "map_of (portfolios b) pid = Some p" using assms(1) by blast
  show "fst (create_portfolio_share b al pid (Some a) node sto sp) = None"
    using p assms(2) by (simp add: create_portfolio_share_def Let_def)
  show "portfolios (snd (create_portfolio_share b al pid (Some a) node sto sp)) = portfolios b"
    by (simp add: create_portfolio_share_maps)
  show "map_of (portfolio_access (snd (create_portfolio_share b al pid (Some a) node sto sp))) pid =
           Some (if a \<in> set (dict_get (portfolio_access b) pid [])
                 then dict_get (portfolio_access b) pid []
                 else dict_get (portfolio_access b) pid [] @ [a])"
  proof (cases "map_of (portfolio_access b) pid")
    case None
    with p assms(2) show ?thesis
      by (simp add: create_portfolio_share_def Let_def dict_get_def AList.update_conv')
  next
    case (Some xs)
    with p assms(2) show ?thesis
      by (cases "a \<in> set xs")
         (simp_all add: create_portfolio_share_def Let_def dict_get_def AList.update_conv')
  qed
qed

lemma create_portfolio_share_granted_already:
  assumes "map_of (portfolios b) pid \<noteq> None" and "a \<noteq> []"
    and "map_of (portfolio_access b) pid = Some xs" and "a \<in> set xs"
  shows "create_portfolio_share b al pid (Some a) node sto sp = (None, b)"
proof -
  obtain p where p: "map_of (portfolios b) pid = Some p" using assms(1) by blast
  from p assms(2,3,4) show ?thesis
    by (simp add: create_portfolio_share_def Let_def dict_get_def)
qed

text \<open>
  Claim C4, as amended. In every state reachable from the empty registry, for every live
  portfolio and every non-empty account id \<open>a\<close>, two calls in succession of
  \<^verbatim>\<open>create_portfolio_share\<close> with the account id \<open>a\<close> (whatever the organization node
  and the flags are) both return \<^verbatim>\<open>None\<close>, the second call changes nothing, and the
  access list of the portfolio then holds \<open>a\<close> exactly once.
\<close>

theorem create_portfolio_share_account_twice:
  assumes "b = run_calls e (init r acct) cs"
    and "map_of (portfolios b) pid \<noteq> None"
    and "a \<noteq> []"
  shows "\<exists>b1 xs.
           create_portfolio_share b al pid (Some a) node sto sp = (None, b1) \<and>
           create_portfolio_share b1 alB pid (Some a) nodeB stoB spB = (None, b1) \<and>
           map_of (portfolio_access b1) pid = Some xs \<and> count_list xs a = 1"
proof -
  let ?r = "create_portfolio_share b al pid (Some a) node sto sp"
  let ?old = "dict_get (portfolio_access b) pid []"
  let ?new = "if a \<in> set ?old then ?old else ?old @ [a]"
  have ok: "grants_ok ?old"
    unfolding assms(1) by (rule reachable_grants_ok)
  then have d: "distinct ?new" by (simp add: grants_ok_def)
  have m: "a \<in> set ?new" by simp
  have c: "count_list ?new a = 1" using d m by (rule count_list_distinct)
  have first: "?r = (None, snd ?r)"
    using create_portfolio_share_grant(1) [OF assms(2,3), of al node sto sp]
    by (simp add: prod_eq_iff)
  have live: "map_of (portfolios (snd ?r)) pid \<noteq> None"
    using assms(2) create_portfolio_share_grant(2) [OF assms(2,3), of al node sto sp] by simp
  have acc: "map_of (portfolio_access (snd ?r)) pid = Some ?new"
    by (rule create_portfolio_share_grant(3) [OF assms(2,3)])
  have second: "create_portfolio_share (snd ?r) alB pid (Some a) nodeB stoB spB = (None, snd ?r)"
    by (rule create_portfolio_share_granted_already [OF live assms(3) acc m])
  from first second acc c show ?thesis by blast
qed

theorem create_portfolio_share_account_twice_witness:
  "ex_one = run_calls ex_env (init ''us-east-1'' ''123456789012'') [ex_create] \<and>
   map_of (portfolios ex_one) ''id-1'' \<noteq> None \<and> ''111111111111'' \<noteq> [] \<and>
   (\<exists>b1 xs.
      create_portfolio_share ex_one None ''id-1'' (Some ''111111111111'') None False False
        = (None, b1) \<and>
      create_portfolio_share b1 None ''id-1'' (Some ''111111111111'') (Some ex_node) True True
        = (None, b1) \<and>
      map_of (portfolio_access b1) ''id-1'' = Some xs \<and> count_list xs ''111111111111'' = 1)"
proof -
  have h1: "ex_one = run_calls ex_env (init ''us-east-1'' ''123456789012'') [ex_create]"
    by (simp add: ex_one_reached)
  have h2: "map_of (portfolios ex_one) ''id-1'' \<noteq> None" by (simp add: ex_one_def)
  have h3: "''111111111111'' \<noteq> []" by simp
  show ?thesis
    using h1 h2 h3 create_portfolio_share_account_twice [OF h1 h2 h3] by blast
qed

text \<open>
  Claim C4 as stated fails for the empty string as the account id: the guard
  \<^verbatim>\<open>if account_id:\<close> treats it as no account id, so the access list of the live
  portfolio \<open>id-1\<close> does not come to hold it, and with an organization node the call
  returns a token instead of \<^verbatim>\<open>None\<close>.
\<close>

theorem create_portfolio_share_account_twice_counterexample:
  "map_of (portfolios ex_one) ''id-1'' \<noteq> None \<and>
   create_portfolio_share ex_one None ''id-1'' (Some '''') None False False = (None, ex_one) \<and>
   count_list (dict_get (portfolio_access ex_one) ''id-1'' []) '''' = 0 \<and>
   create_portfolio_share ex_one None ''id-1'' (Some '''') (Some ex_node) False False
     = (Some ''share-id-1-ORGANIZATION-o-1'', ex_one)"
  by (simp add: create_portfolio_share_def ex_one_def ex_node_def dict_get_def Let_def)

section \<open>delete_portfolio_share\<close>

lemma ex_shared_reached:
  "run_calls ex_env (init ''us-east-1'' ''123456789012'') ex_grants = ex_shared"
  by (simp add: run_calls_def ex_grants_def ex_create_def create_portfolio_def
                create_portfolio_share_def init_def ex_shared_def ex_one_def ex_env_def
                or_default_def dict_get_def Let_def)

lemma delete_portfolio_share_access:
  assumes "a \<noteq> []"
  shows "dict_get (portfolio_access (snd (delete_portfolio_share b al pid (Some a) node))) pid [] =
         remove1 a (dict_get (portfolio_access b) pid [])"
proof (cases "map_of (portfolio_access b) pid")
  case None
  with assms show ?thesis by (simp add: delete_portfolio_share_def Let_def dict_get_def)
next
  case (Some xs)
  with assms show ?thesis
    by (cases "a \<in> set xs")
       (simp_all add: delete_portfolio_share_def Let_def dict_get_def AList.update_conv'
                      remove1_idem)
qed

lemma delete_portfolio_share_empty_account:
  "snd (delete_portfolio_share b al pid (Some []) node) = b"
  by (simp add: delete_portfolio_share_def Let_def)

text \<open>
  Claim C6, as amended. For every registry state, \<^verbatim>\<open>delete_portfolio_share\<close> returns a
  token exactly when the organization node is given and is not the empty dict; the token
  is \<open>share-pid-Type-Value\<close>. This holds whether or not the portfolio id is known and
  whether or not an account id was removed; portfolios and idempotency tokens are left
  alone. When a non-empty account id is given, its first occurrence is taken out of the
  access list of the portfolio; in every state reachable from the empty registry the
  access list then no longer holds the given account id.
\<close>

theorem delete_portfolio_share_token_and_removal:
  "(fst (delete_portfolio_share b al pid aid node) \<noteq> None) = truthy node \<and>
   (node = Some n \<and> n \<noteq> [] \<longrightarrow>
      fst (delete_portfolio_share b al pid aid node) =
        Some (''share-'' @ pid @ ''-'' @ dict_get n ''Type'' '''' @ ''-'' @ dict_get n ''Value'' '''')) \<and>
   portfolios (snd (delete_portfolio_share b al pid aid node)) = portfolios b \<and>
   idempotency_tokens (snd (delete_portfolio_share b al pid aid node)) = idempotency_tokens b \<and>
   (aid = Some a \<and> a \<noteq> [] \<longrightarrow>
      dict_get (portfolio_access (snd (delete_portfolio_share b al pid aid node))) pid [] =
        remove1 a (dict_get (portfolio_access b) pid [])) \<and>
   (aid = Some a \<and> b = run_calls e (init r acct) cs \<longrightarrow>
      a \<notin> set (dict_get (portfolio_access (snd (delete_portfolio_share b al pid aid node))) pid []))"
proof -
  have tok: "(fst (delete_portfolio_share b al pid aid node) \<noteq> None) = truthy node"
    by (simp add: delete_portfolio_share_def Let_def truthy_def split: option.splits)
  have val: "node = Some n \<and> n \<noteq> [] \<longrightarrow>
      fst (delete_portfolio_share b al pid aid node) =
        Some (''share-'' @ pid @ ''-'' @ dict_get n ''Type'' '''' @ ''-'' @ dict_get n ''Value'' '''')"
    by (simp add: delete_portfolio_share_def Let_def)
  have frame: "portfolios (snd (delete_portfolio_share b al pid aid node)) = portfolios b \<and>
     idempotency_tokens (snd (delete_portfolio_share b al pid aid node)) = idempotency_tokens b"
    by (simp add: delete_portfolio_share_maps)
  have rem: "aid = Some a \<and> a \<noteq> [] \<longrightarrow>
      dict_get (portfolio_access (snd (delete_portfolio_share b al pid aid node))) pid [] =
        remove1 a (dict_get (portfolio_access b) pid [])"
    using delete_portfolio_share_access [of a b al pid node] by blast
  have gone: "aid = Some a \<and> b = run_calls e (init r acct) cs \<longrightarrow>
      a \<notin> set (dict_get (portfolio_access (snd (delete_portfolio_share b al pid aid node))) pid [])"
  proof
    assume h: "aid = Some a \<and> b = run_calls e (init r acct) cs"
    let ?old = "dict_get (portfolio_access b) pid []"
    have ok: "grants_ok ?old"
      using h reachable_grants_ok [of e r acct cs pid] by simp
    show "a \<notin> set (dict_get (portfolio_access (snd (delete_portfolio_share b al pid aid node))) pid [])"
    proof (cases "a = []")
      case True
      with h ok show ?thesis
        by (simp add: delete_portfolio_share_empty_account grants_ok_def)
    next
      case False
      from ok have "distinct ?old" by (simp add: grants_ok_def)
      then have "a \<notin> set (remove1 a ?old)" by simp
      with h False show ?thesis
        using delete_portfolio_share_access [of a b al pid node] by simp
    qed
  qed
  from tok val frame rem gone show ?thesis by blast
qed

theorem delete_portfolio_share_token_and_removal_witness:
  "ex_node \<noteq> [] \<and> ''111111111111'' \<noteq> [] \<and>
   ex_shared = run_calls ex_env (init ''us-east-1'' ''123456789012'') ex_grants \<and>
   fst (delete_portfolio_share ex_shared None ''id-1'' (Some ''111111111111'') (Some ex_node))
     = Some ''share-id-1-ORGANIZATION-o-1'' \<and>
   dict_get (portfolio_access
       (snd (delete_portfolio_share ex_shared None ''id-1'' (Some ''111111111111'') (Some ex_node))))
     ''id-1'' [] = [''222222222222''] \<and>
   ''111111111111'' \<notin> set (dict_get (portfolio_access
       (snd (delete_portfolio_share ex_shared None ''id-1'' (Some ''111111111111'') (Some ex_node))))
     ''id-1'' [])"
proof -
  have h1: "ex_node \<noteq> []" by (simp add: ex_node_def)
  have h2: "''111111111111'' \<noteq> []" by simp
  have h3: "ex_shared = run_calls ex_env (init ''us-east-1'' ''123456789012'') ex_grants"
    by (simp add: ex_shared_reached)
  have old: "dict_get (portfolio_access ex_shared) ''id-1'' [] = [''111111111111'', ''222222222222'']"
    by (simp add: ex_shared_def dict_get_def)
  have nd: "''share-'' @ ''id-1'' @ ''-'' @ dict_get ex_node ''Type'' '''' @ ''-''
              @ dict_get ex_node ''Value'' '''' = ''share-id-1-ORGANIZATION-o-1''"
    by (simp add: ex_node_def dict_get_def)
  from delete_portfolio_share_token_and_removal
    [where b = ex_shared and al = None and pid = "''id-1''" and aid = "Some ''111111111111''"
       and node = "Some ex_node" and n = ex_node and a = "''111111111111''"
       and e = ex_env and r = "''us-east-1''" and acct = "''123456789012''" and cs = ex_grants]
       h1 h2 h3 old nd
  show ?thesis by simp
qed

text \<open>
  Claim C6 as stated fails for an organization node that is given as the empty dict: the
  guard \<^verbatim>\<open>if organization_node:\<close> treats it as absent and no token is returned.
\<close>

theorem delete_portfolio_share_token_and_removal_counterexample:
  "delete_portfolio_share ex_one None ''id-1'' None (Some []) = (None, ex_one)"
  by (simp add: delete_portfolio_share_def Let_def)

section \<open>list_portfolio_access\<close>

lemma list_portfolio_access_page:
  "fst (list_portfolio_access b al pid org tok sz) =
     take (nat (case sz of None \<Rightarrow> 20 | Some k \<Rightarrow> k))
       (drop (case tok of None \<Rightarrow> 0 | Some n \<Rightarrow> n)
          (map (\<lambda>a. [(''account_id'', a)]) (dict_get (portfolio_access b) pid [])))"
  by (cases sz)
     (simp_all add: list_portfolio_access_def list_portfolio_access_body_def paginate_def
                    PAGINATION_MODEL_list_portfolio_access_def Let_def)

lemma list_portfolio_access_all:
  assumes "int (length (dict_get (portfolio_access b) pid [])) \<le> (case sz of None \<Rightarrow> 20 | Some k \<Rightarrow> k)"
  shows "list_portfolio_access b al pid org None sz =
           (map (\<lambda>a. [(''account_id'', a)]) (dict_get (portfolio_access b) pid []), None)"
  using assms
  by (cases sz)
     (simp_all add: list_portfolio_access_def list_portfolio_access_body_def paginate_def
                    PAGINATION_MODEL_list_portfolio_access_def Let_def)

text \<open>
  Claim C8. For every registry state and every portfolio id, the page that
  \<^verbatim>\<open>list_portfolio_access\<close> returns is a run of consecutive records of the access list
  of the portfolio, one record \<open>account_id\<close> per granted account, in the order of the
  list. The page holds at most 20 records when no page size is given and at most
  \<open>k\<close> records when the page size \<open>k\<close> (not negative) is given; without a page token,
  a list that fits into one page is returned whole and without a next token.
  \<^verbatim>\<open>create_portfolio_share\<close> puts a newly granted account at the end of the list, so
  the order of the list is the order of the grants: after access was granted to
  111111111111 and then to 222222222222, both are returned, in that order.
\<close>

theorem list_portfolio_access_pages:
  "fst (list_portfolio_access b al pid org tok sz) =
     take (nat (case sz of None \<Rightarrow> 20 | Some k \<Rightarrow> k))
       (drop (case tok of None \<Rightarrow> 0 | Some n \<Rightarrow> n)
          (map (\<lambda>a. [(''account_id'', a)]) (dict_get (portfolio_access b) pid []))) \<and>
   (sz = None \<longrightarrow> length (fst (list_portfolio_access b al pid org tok sz)) \<le> 20) \<and>
   (sz = Some k \<and> 0 \<le> k \<longrightarrow> int (length (fst (list_portfolio_access b al pid org tok sz))) \<le> k) \<and>
   (int (length (dict_get (portfolio_access b) pid [])) \<le> (case sz of None \<Rightarrow> 20 | Some k \<Rightarrow> k) \<longrightarrow>
      list_portfolio_access b al pid org None sz =
        (map (\<lambda>a. [(''account_id'', a)]) (dict_get (portfolio_access b) pid []), None)) \<and>
   (map_of (portfolios b) pid \<noteq> None \<and> a \<noteq> [] \<and> a \<notin> set (dict_get (portfolio_access b) pid []) \<longrightarrow>
      dict_get (portfolio_access (snd (create_portfolio_share b alG pid (Some a) node sto sp))) pid [] =
        dict_get (portfolio_access b) pid [] @ [a]) \<and>
   list_portfolio_access (run_calls ex_env ex_empty ex_grants) None ''id-1'' None None None =
     ([[(''account_id'', ''111111111111'')], [(''account_id'', ''222222222222'')]], None)"
proof -
  have page: "fst (list_portfolio_access b al pid org tok sz) =
     take (nat (case sz of None \<Rightarrow> 20 | Some k \<Rightarrow> k))
       (drop (case tok of None \<Rightarrow> 0 | Some n \<Rightarrow> n)
          (map (\<lambda>a. [(''account_id'', a)]) (dict_get (portfolio_access b) pid [])))"
    by (rule list_portfolio_access_page)
  have dflt: "sz = None \<longrightarrow> length (fst (list_portfolio_access b al pid org tok sz)) \<le> 20"
    by (simp add: list_portfolio_access_page)
  have given: "sz = Some k \<and> 0 \<le> k \<longrightarrow>
      int (length (fst (list_portfolio_access b al pid org tok sz))) \<le> k"
    by (auto simp add: list_portfolio_access_page)
  have all: "int (length (dict_get (portfolio_access b) pid [])) \<le> (case sz of None \<Rightarrow> 20 | Some k \<Rightarrow> k) \<longrightarrow>
      list_portfolio_access b al pid org None sz =
        (map (\<lambda>a. [(''account_id'', a)]) (dict_get (portfolio_access b) pid []), None)"
    using list_portfolio_access_all [of b pid sz al org] by blast
  have grant: "map_of (portfolios b) pid \<noteq> None \<and> a \<noteq> [] \<and> a \<notin> set (dict_get (portfolio_access b) pid []) \<longrightarrow>
      dict_get (portfolio_access (snd (create_portfolio_share b alG pid (Some a) node sto sp))) pid [] =
        dict_get (portfolio_access b) pid [] @ [a]"
  proof
    assume h: "map_of (portfolios b) pid \<noteq> None \<and> a \<noteq> [] \<and> a \<notin> set (dict_get (portfolio_access b) pid [])"
    then have l: "map_of (portfolios b) pid \<noteq> None" and n: "a \<noteq> []" by simp_all
    from create_portfolio_share_grant(3) [OF l n, of alG node sto sp] h
    show "dict_get (portfolio_access (snd (create_portfolio_share b alG pid (Some a) node sto sp))) pid [] =
        dict_get (portfolio_access b) pid [] @ [a]"
      by (simp add: dict_get_def)
  qed
  have st: "run_calls ex_env ex_empty ex_grants = ex_shared"
    using ex_shared_reached by (simp add: ex_empty_def)
  have ex: "list_portfolio_access (run_calls ex_env ex_empty ex_grants) None ''id-1'' None None None =
     ([[(''account_id'', ''111111111111'')], [(''account_id'', ''222222222222'')]], None)"
    unfolding st
    by (simp add: list_portfolio_access_def list_portfolio_access_body_def paginate_def
                  PAGINATION_MODEL_list_portfolio_access_def ex_shared_def dict_get_def Let_def)
  from page dflt given all grant ex show ?thesis by blast
qed

theorem list_portfolio_access_pages_witness:
  "list_portfolio_access ex_shared None ''id-1'' None None (Some 1) =
     ([[(''account_id'', ''111111111111'')]], Some 1) \<and>
   list_portfolio_access ex_shared None ''id-1'' None (Some 1) (Some 1) =
     ([[(''account_id'', ''222222222222'')]], None) \<and>
   int (length (fst (list_portfolio_access ex_shared None ''id-1'' None None (Some 1)))) \<le> 1 \<and>
   int (length (dict_get (portfolio_access ex_shared) ''id-1'' [])) \<le> 20 \<and>
   list_portfolio_access ex_shared None ''id-1'' None None None =
     ([[(''account_id'', ''111111111111'')], [(''account_id'', ''222222222222'')]], None) \<and>
   map_of (portfolios ex_one) ''id-1'' \<noteq> None \<and>
   ''111111111111'' \<notin> set (dict_get (portfolio_access ex_one) ''id-1'' []) \<and>
   dict_get (portfolio_access
       (snd (create_portfolio_share ex_one None ''id-1'' (Some ''111111111111'') None False False)))
     ''id-1'' [] = [''111111111111'']"
proof -
  have p1: "list_portfolio_access ex_shared None ''id-1'' None None (Some 1) =
     ([[(''account_id'', ''111111111111'')]], Some 1)"
    by (simp add: list_portfolio_access_def list_portfolio_access_body_def paginate_def
                  PAGINATION_MODEL_list_portfolio_access_def ex_shared_def dict_get_def Let_def)
  have p2: "list_portfolio_access ex_shared None ''id-1'' None (Some 1) (Some 1) =
     ([[(''account_id'', ''222222222222'')]], None)"
    by (simp add: list_portfolio_access_def list_portfolio_access_body_def paginate_def
                  PAGINATION_MODEL_list_portfolio_access_def ex_shared_def dict_get_def Let_def)
  have old: "dict_get (portfolio_access ex_shared) ''id-1'' [] = [''111111111111'', ''222222222222'']"
    by (simp add: ex_shared_def dict_get_def)
  have h1: "map_of (portfolios ex_one) ''id-1'' \<noteq> None" by (simp add: ex_one_def)
  have h2: "dict_get (portfolio_access ex_one) ''id-1'' [] = []"
    by (simp add: ex_one_def dict_get_def)
  have g: "dict_get (portfolio_access
       (snd (create_portfolio_share ex_one None ''id-1'' (Some ''111111111111'') None False False)))
     ''id-1'' [] = [''111111111111'']"
    using list_portfolio_access_pages
      [where b = ex_one and pid = "''id-1''" and a = "''111111111111''" and alG = None
         and node = None and sto = False and sp = False] h1 h2
    by simp
  have s: "int (length (fst (list_portfolio_access ex_shared None ''id-1'' None None (Some 1)))) \<le> 1"
    using list_portfolio_access_pages
      [where b = ex_shared and al = None and pid = "''id-1''" and org = None and tok = None
         and sz = "Some 1" and k = 1]
    by simp
  have a: "list_portfolio_access ex_shared None ''id-1'' None None None =
     ([[(''account_id'', ''111111111111'')], [(''account_id'', ''222222222222'')]], None)"
    using list_portfolio_access_pages
      [where b = ex_shared and al = None and pid = "''id-1''" and org = None and sz = None] old
    by simp
  from p1 p2 s a g h1 h2 old show ?thesis by simp
qed

end
